theory Spec2Isabelle
  imports Complex_Main "HOL-Library.Sublist"
begin

section \<open>Data model of the authentication pipeline\<close>

text \<open>
  Python text is a sequence of Unicode code points; a code point is a natural number.
  Dictionary keys, backend names and exception arguments of \<^verbatim>\<open>pipeline.py\<close> are
  ASCII identifiers and are kept as HOL strings.
\<close>

type_synonym ustr = "nat list"

definition u :: "string \<Rightarrow> ustr" where
  "u s = map of_char s"

text \<open>A value stored in the \<^verbatim>\<open>details\<close> dictionary: \<^verbatim>\<open>None\<close> or a text.\<close>

datatype pyval = PyNone | PyStr ustr

fun truthy :: "pyval \<Rightarrow> bool" where
  "truthy PyNone = False"
| "truthy (PyStr s) = (s \<noteq> [])"

type_synonym details = "string \<rightharpoonup> pyval"

text \<open>
  The exceptions the steps raise. \<^verbatim>\<open>AuthStateForbidden\<close>, \<^verbatim>\<open>AuthAlreadyAssociated\<close>
  and \<^verbatim>\<open>AuthMissingParameter\<close> carry the backend name (and a parameter); the others are
  the interpreter's and the object-relational mapper's own.
\<close>

datatype error =
    AuthStateForbidden string string
  | AuthAlreadyAssociated string
  | AuthMissingParameter string string
  | KeyError string
  | IndexError
  | AttributeError
  | TypeError
  | MultipleObjectsReturned
  | FetchFailed

text \<open>
  The error kinds of the specification are these exceptions:
  \<^verbatim>\<open>LinkExpired\<close> is \<^verbatim>\<open>AuthStateForbidden(backend, 'expires')\<close>,
  \<^verbatim>\<open>SessionUserMismatch\<close> is \<^verbatim>\<open>AuthStateForbidden(backend, 'user')\<close> and
  \<^verbatim>\<open>MissingEmail\<close> is \<^verbatim>\<open>AuthMissingParameter(backend, 'email')\<close>.
\<close>

abbreviation LinkExpired :: "string \<Rightarrow> error" where
  "LinkExpired backend \<equiv> AuthStateForbidden backend ''expires''"

abbreviation SessionUserMismatch :: "string \<Rightarrow> error" where
  "SessionUserMismatch backend \<equiv> AuthStateForbidden backend ''user''"

abbreviation MissingEmail :: "string \<Rightarrow> error" where
  "MissingEmail backend \<equiv> AuthMissingParameter backend ''email''"

text \<open>
  A Django user object. \<^verbatim>\<open>pk\<close> is \<^verbatim>\<open>None\<close> for an anonymous or unsaved user.
  The \<^verbatim>\<open>user\<close> argument of a step is an optional user: \<^verbatim>\<open>None\<close> is falsy, every user
  object is truthy.
\<close>

record user =
  pk :: "int option"
  is_authenticated :: bool
  username :: ustr
  user_email :: ustr
  first_name :: ustr

section \<open>The step \<^verbatim>\<open>ensure_valid\<close>\<close>

text \<open>
  \<^verbatim>\<open>time.time()\<close> is passed as \<open>now\<close>; the comparison of the integer
  \<^verbatim>\<open>weblate_expires\<close> with it is exact in Python, so it is the comparison of reals.
\<close>

definition ensure_valid ::
  "real \<Rightarrow> string \<Rightarrow> user option \<Rightarrow> int option \<Rightarrow> string \<Rightarrow> int \<Rightarrow> error + unit" where
  "ensure_valid now backend usr registering_user weblate_action weblate_expires =
     (if of_int weblate_expires < now then Inl (AuthStateForbidden backend ''expires'')
      else if weblate_action = ''reset'' then Inr ()
      else
        let current_user =
              (case usr of
                 None \<Rightarrow> None
               | Some x \<Rightarrow> if is_authenticated x then pk x else None)
        in if current_user \<noteq> registering_user
           then Inl (AuthStateForbidden backend ''user'')
           else Inr ())"

text \<open>The id the step compares with \<^verbatim>\<open>registering_user\<close>.\<close>

definition current_user_id :: "user option \<Rightarrow> int option" where
  "current_user_id usr =
     (case usr of None \<Rightarrow> None | Some x \<Rightarrow> if is_authenticated x then pk x else None)"

section \<open>The secondary-email fetch and the step \<^verbatim>\<open>require_email\<close>\<close>

text \<open>One entry of the JSON list that GitHub's \<^verbatim>\<open>/user/emails\<close> endpoint returns.\<close>

record email_entry =
  entry_email :: ustr
  entry_verified :: bool
  entry_primary :: bool

text \<open>
  The \<^verbatim>\<open>for\<close> loop of \<^verbatim>\<open>get_github_email\<close>; the first argument is the variable
  \<^verbatim>\<open>email\<close>. An unverified entry is skipped (\<^verbatim>\<open>continue\<close>), a verified one is
  assigned, and a verified primary one ends the loop (\<^verbatim>\<open>break\<close>).
\<close>

fun email_loop :: "ustr option \<Rightarrow> email_entry list \<Rightarrow> ustr option" where
  "email_loop email [] = email"
| "email_loop email (entry # data) =
     (if \<not> entry_verified entry then email_loop email data
      else if entry_primary entry then Some (entry_email entry)
      else email_loop (Some (entry_email entry)) data)"

text \<open>
  The HTTP request and the decoding of its answer are the parameter \<open>fetch\<close>: it
  yields the decoded list, or fails.
\<close>

definition get_github_email ::
  "(ustr \<Rightarrow> error + email_entry list) \<Rightarrow> ustr \<Rightarrow> error + ustr option" where
  "get_github_email fetch access_token =
     (case fetch access_token of
        Inl e \<Rightarrow> Inl e
      | Inr data \<Rightarrow> Inr (email_loop None data))"

text \<open>
  What a step hands back to the engine: nothing, a dictionary that sets
  \<^verbatim>\<open>is_new\<close> to true, or a redirect.
\<close>

datatype step_result = Continue | SetIsNew | Redirect string

text \<open>\<^verbatim>\<open>details.get('email')\<close> taken as a condition.\<close>

definition has_email :: "details \<Rightarrow> bool" where
  "has_email d = (case d ''email'' of None \<Rightarrow> False | Some v \<Rightarrow> truthy v)"

definition require_email ::
  "(ustr \<Rightarrow> error + email_entry list) \<Rightarrow> string \<Rightarrow> details \<Rightarrow> user option \<Rightarrow> bool \<Rightarrow>
   (string \<rightharpoonup> ustr) \<Rightarrow> error + (details \<times> step_result)" where
  "require_email fetch backend_name d usr is_new response =
     (case (if backend_name = ''github'' then
              (case response ''access_token'' of
                 None \<Rightarrow> Inl (KeyError ''access_token'')
               | Some token \<Rightarrow>
                   (case get_github_email fetch token of
                      Inl e \<Rightarrow> Inl e
                    | Inr None \<Rightarrow> Inr d
                    | Inr (Some email) \<Rightarrow> Inr (d(''email'' \<mapsto> PyStr email))))
            else Inr d) of
        Inl e \<Rightarrow> Inl e
      | Inr d' \<Rightarrow>
          if (case usr of None \<Rightarrow> False | Some x \<Rightarrow> user_email x \<noteq> []) then
            (if backend_name = ''email'' then Inr (d', SetIsNew) else Inr (d', Continue))
          else if is_new \<and> \<not> has_email d' then Inr (d', Redirect ''register'')
          else Inr (d', Continue))"

text \<open>
  Two readings of which address the loop selects. Both take the first verified primary
  entry when there is one; without one, the first takes the first verified entry and the
  second the last verified entry.
\<close>

definition first_email :: "email_entry list \<Rightarrow> ustr option" where
  "first_email es = (case es of [] \<Rightarrow> None | e # _ \<Rightarrow> Some (entry_email e))"

definition primary_else_first_verified :: "email_entry list \<Rightarrow> ustr option" where
  "primary_else_first_verified data =
     (case filter (\<lambda>e. entry_verified e \<and> entry_primary e) data of
        e # _ \<Rightarrow> Some (entry_email e)
      | [] \<Rightarrow> first_email (filter entry_verified data))"

definition primary_else_last_verified :: "email_entry list \<Rightarrow> ustr option" where
  "primary_else_last_verified data =
     (case filter (\<lambda>e. entry_verified e \<and> entry_primary e) data of
        e # _ \<Rightarrow> Some (entry_email e)
      | [] \<Rightarrow> first_email (rev (filter entry_verified data)))"

text \<open>An endpoint that answers every request with the same list.\<close>

definition serve :: "email_entry list \<Rightarrow> ustr \<Rightarrow> error + email_entry list" where
  "serve data token = Inr data"

section \<open>The step \<^verbatim>\<open>verify_username\<close>\<close>

text \<open>
  \<^verbatim>\<open>User.objects.filter(username__iexact=...)\<close>: the account store is the list of
  its users, and its case-insensitive comparison of two texts is the parameter
  \<open>iexact\<close>. Django turns an \<^verbatim>\<open>iexact\<close> lookup of \<^verbatim>\<open>None\<close> into an
  \<^verbatim>\<open>IS NULL\<close> test, which no user name satisfies.
\<close>

definition username_iexact :: "(ustr \<Rightarrow> ustr \<Rightarrow> bool) \<Rightarrow> pyval \<Rightarrow> user \<Rightarrow> bool" where
  "username_iexact iexact v x =
     (case v of PyNone \<Rightarrow> False | PyStr s \<Rightarrow> iexact (username x) s)"

definition verify_username ::
  "(ustr \<Rightarrow> ustr \<Rightarrow> bool) \<Rightarrow> user list \<Rightarrow> string \<Rightarrow> details \<Rightarrow> user option \<Rightarrow> error + unit" where
  "verify_username iexact users backend d usr =
     (case usr of
        Some x \<Rightarrow> Inr ()
      | None \<Rightarrow>
          (case d ''username'' of
             None \<Rightarrow> Inr ()
           | Some v \<Rightarrow>
               if filter (username_iexact iexact v) users \<noteq> []
               then Inl (AuthAlreadyAssociated backend)
               else Inr ()))"

text \<open>A case-insensitive comparison for ASCII letters, to run the step on examples.\<close>

definition ascii_lower :: "nat \<Rightarrow> nat" where
  "ascii_lower c = (if 65 \<le> c \<and> c \<le> 90 then c + 32 else c)"

definition iexact_ascii :: "ustr \<Rightarrow> ustr \<Rightarrow> bool" where
  "iexact_ascii a b = (map ascii_lower a = map ascii_lower b)"

section \<open>The step \<^verbatim>\<open>store_email\<close>\<close>

text \<open>
  A social identity (\<^verbatim>\<open>UserSocialAuth\<close>) and a row of \<^verbatim>\<open>VerifiedEmail\<close>. Two social
  identities are the same database object when their ids are equal. The table is the
  list of its rows, in the order in which the database returns them.
\<close>

record social_auth =
  social_id :: nat
  social_user :: int
  uid :: ustr

record verified_email =
  ve_social :: social_auth
  ve_email :: ustr

definition same_social :: "social_auth \<Rightarrow> verified_email \<Rightarrow> bool" where
  "same_social social r = (social_id (ve_social r) = social_id social)"

text \<open>
  \<^verbatim>\<open>VerifiedEmail.objects.get_or_create(social=social)\<close>: the row when exactly one
  matches, a fresh row when none does, and \<^verbatim>\<open>MultipleObjectsReturned\<close> otherwise. The
  email of a fresh row is the column's default, the parameter \<open>blank\<close>.
\<close>

definition get_or_create ::
  "ustr \<Rightarrow> social_auth \<Rightarrow> verified_email list \<Rightarrow>
   error + (verified_email \<times> verified_email list)" where
  "get_or_create blank social rows =
     (case filter (same_social social) rows of
        [] \<Rightarrow> (let r = \<lparr>ve_social = social, ve_email = blank\<rparr> in Inr (r, rows @ [r]))
      | [r] \<Rightarrow> Inr (r, rows)
      | r # r' # rs \<Rightarrow> Inl MultipleObjectsReturned)"

text \<open>
  \<^verbatim>\<open>verified.save()\<close> writes the object over its row; the row is the one of the
  object's social identity, the only one there is after \<open>get_or_create\<close>.
\<close>

definition save_verified :: "verified_email \<Rightarrow> verified_email list \<Rightarrow> verified_email list" where
  "save_verified v rows = map (\<lambda>r. if same_social (ve_social v) r then v else r) rows"

definition store_email ::
  "ustr \<Rightarrow> verified_email list \<Rightarrow> string \<Rightarrow> social_auth \<Rightarrow> details \<Rightarrow>
   error + verified_email list" where
  "store_email blank rows backend social d =
     (case d ''email'' of
        None \<Rightarrow> Inl (AuthMissingParameter backend ''email'')
      | Some PyNone \<Rightarrow> Inl (AuthMissingParameter backend ''email'')
      | Some (PyStr email) \<Rightarrow>
          (case get_or_create blank social rows of
             Inl e \<Rightarrow> Inl e
           | Inr (verified, rows') \<Rightarrow>
               if ve_email verified \<noteq> email
               then Inr (save_verified (verified\<lparr>ve_email := email\<rparr>) rows')
               else Inr rows'))"

section \<open>The step \<^verbatim>\<open>revoke_mail_code\<close>\<close>

text \<open>A row of the validation-code table of the storage.\<close>

record mail_code =
  code_code :: ustr
  code_email :: ustr
  code_verified :: bool

definition code_matches :: "ustr \<Rightarrow> pyval \<Rightarrow> mail_code \<Rightarrow> bool" where
  "code_matches c email r = (code_code r = c \<and> PyStr (code_email r) = email \<and> code_verified r)"

text \<open>
  \<open>data\<close> is \<^verbatim>\<open>strategy.request_data()\<close>. \<^verbatim>\<open>details['email']\<close> is evaluated first
  and raises \<^verbatim>\<open>KeyError\<close> when the key is absent. \<^verbatim>\<open>objects.get\<close> raises
  \<^verbatim>\<open>DoesNotExist\<close>, which the step catches, when no row matches, and
  \<^verbatim>\<open>MultipleObjectsReturned\<close>, which it does not catch, when several do.
\<close>

definition revoke_mail_code ::
  "(string \<rightharpoonup> ustr) \<Rightarrow> mail_code list \<Rightarrow> details \<Rightarrow> error + mail_code list" where
  "revoke_mail_code data codes d =
     (case d ''email'' of
        None \<Rightarrow> Inl (KeyError ''email'')
      | Some email \<Rightarrow>
          (case data ''verification_code'' of
             None \<Rightarrow> Inr codes
           | Some c \<Rightarrow>
               if truthy email then
                 (case filter (code_matches c email) codes of
                    [] \<Rightarrow> Inr codes
                  | [r] \<Rightarrow> Inr (filter (\<lambda>r. \<not> code_matches c email r) codes)
                  | r # r' # rs \<Rightarrow> Inl MultipleObjectsReturned)
               else Inr codes))"

section \<open>The step \<^verbatim>\<open>adjust_primary_mail\<close>\<close>

text \<open>
  The query set \<^verbatim>\<open>verified\<close>: the rows whose social identity belongs to the user and
  is not among the disconnected \<^verbatim>\<open>entries\<close>.
\<close>

definition remaining_verified ::
  "verified_email list \<Rightarrow> social_auth list \<Rightarrow> user \<Rightarrow> verified_email list" where
  "remaining_verified rows entries usr =
     filter (\<lambda>r. Some (social_user (ve_social r)) = pk usr \<and>
                 social_id (ve_social r) \<notin> set (map social_id entries)) rows"

text \<open>What the step does besides returning: \<^verbatim>\<open>user.save()\<close> and the warning message.\<close>

datatype effect = UserSaved user | Warning ustr

definition adjust_primary_mail ::
  "verified_email list \<Rightarrow> social_auth list \<Rightarrow> user \<Rightarrow> error + (user \<times> effect list)" where
  "adjust_primary_mail rows entries usr =
     (let verified = remaining_verified rows entries usr in
      if filter (\<lambda>r. ve_email r = user_email usr) verified \<noteq> [] then Inr (usr, [])
      else
        (case verified of
           [] \<Rightarrow> Inl IndexError
         | r # rs \<Rightarrow>
             (let usr' = usr\<lparr>user_email := ve_email r\<rparr>
              in Inr (usr', [UserSaved usr', Warning (user_email usr')]))))"

section \<open>The step \<^verbatim>\<open>user_full_name\<close>\<close>

text \<open>
  The code points for which \<^verbatim>\<open>str.isspace\<close> holds in Python 3: the characters
  that \<^verbatim>\<open>str.strip()\<close> removes from both ends, and the class \<^verbatim>\<open>\s\<close> of a text
  pattern.
\<close>

definition isspace :: "nat \<Rightarrow> bool" where
  "isspace c =
     ((9 \<le> c \<and> c \<le> 13) \<or> (28 \<le> c \<and> c \<le> 32) \<or> c = 133 \<or> c = 160 \<or> c = 5760 \<or>
      (8192 \<le> c \<and> c \<le> 8202) \<or> c = 8232 \<or> c = 8233 \<or> c = 8239 \<or> c = 8287 \<or>
      c = 12288)"

definition py_strip :: "ustr \<Rightarrow> ustr" where
  "py_strip s = rev (dropWhile isspace (rev (dropWhile isspace s)))"

text \<open>
  \<^verbatim>\<open>details.get(key, '')\<close>, and the method \<^verbatim>\<open>strip\<close>, which \<^verbatim>\<open>None\<close> does not
  have.
\<close>

definition details_get :: "details \<Rightarrow> string \<Rightarrow> pyval" where
  "details_get d key = (case d key of None \<Rightarrow> PyStr [] | Some v \<Rightarrow> v)"

definition strip_method :: "pyval \<Rightarrow> error + ustr" where
  "strip_method v = (case v of PyNone \<Rightarrow> Inl AttributeError | PyStr s \<Rightarrow> Inr (py_strip s))"

text \<open>
  The inner \<^verbatim>\<open>if\<close>/\<^verbatim>\<open>elif\<close>/\<^verbatim>\<open>else\<close> on \<^verbatim>\<open>first_name\<close> and \<^verbatim>\<open>last_name\<close>.
  \<^verbatim>\<open>first_name not in last_name\<close> is the substring test, and raises \<^verbatim>\<open>TypeError\<close>
  when \<^verbatim>\<open>last_name\<close> is \<^verbatim>\<open>None\<close>; code point 32 is the space.
\<close>

fun combine_names :: "pyval \<Rightarrow> pyval \<Rightarrow> error + pyval" where
  "combine_names (PyStr f) last_name =
     (if f \<noteq> [] then
        (case last_name of
           PyNone \<Rightarrow> Inl TypeError
         | PyStr l \<Rightarrow> if \<not> sublist f l then Inr (PyStr (f @ [32] @ l)) else Inr (PyStr f))
      else Inr last_name)"
| "combine_names PyNone last_name = Inr last_name"

text \<open>
  The step returns the user and whether \<^verbatim>\<open>strategy.storage.user.changed(user)\<close> was
  called.
\<close>

definition user_full_name :: "details \<Rightarrow> user option \<Rightarrow> error + (user option \<times> bool)" where
  "user_full_name d usr =
     (case usr of
        None \<Rightarrow> Inr (None, False)
      | Some x \<Rightarrow>
          (case strip_method (details_get d ''fullname'') of
             Inl e \<Rightarrow> Inl e
           | Inr full_name \<Rightarrow>
               (case (if full_name = [] \<and> (d ''first_name'' \<noteq> None \<or> d ''last_name'' \<noteq> None)
                      then combine_names (details_get d ''first_name'') (details_get d ''last_name'')
                      else Inr (PyStr full_name)) of
                  Inl e \<Rightarrow> Inl e
                | Inr v \<Rightarrow>
                    (case strip_method v of
                       Inl e \<Rightarrow> Inl e
                     | Inr stripped \<Rightarrow>
                         (let full_name = (if length stripped > 30 then take 30 stripped
                                           else stripped)
                          in if full_name \<noteq> [] \<and> full_name \<noteq> first_name x
                             then Inr (Some (x\<lparr>first_name := full_name\<rparr>), True)
                             else Inr (Some x, False))))))"

text \<open>
  The derived full name in words: the text of a name field (empty when the key is
  absent), the combination of first and last name, and the derived name with and
  without the trimming of the combination; then the rule that updates the stored first
  name.
\<close>

definition name_field :: "details \<Rightarrow> string \<Rightarrow> ustr" where
  "name_field d key = (case d key of Some (PyStr s) \<Rightarrow> s | _ \<Rightarrow> [])"

definition combined_name :: "ustr \<Rightarrow> ustr \<Rightarrow> ustr" where
  "combined_name f l =
     (if f \<noteq> [] \<and> \<not> sublist f l then f @ [32] @ l else if f \<noteq> [] then f else l)"

definition full_name_as_claimed :: "details \<Rightarrow> ustr" where
  "full_name_as_claimed d =
     (let full = py_strip (name_field d ''fullname'')
      in take 30 (if full \<noteq> [] then full
                  else combined_name (name_field d ''first_name'') (name_field d ''last_name'')))"

definition full_name_trimmed :: "details \<Rightarrow> ustr" where
  "full_name_trimmed d =
     (let full = py_strip (name_field d ''fullname'')
      in take 30 (if full \<noteq> [] then full
                  else py_strip (combined_name (name_field d ''first_name'')
                                               (name_field d ''last_name''))))"

definition update_first_name :: "ustr \<Rightarrow> user \<Rightarrow> error + (user option \<times> bool)" where
  "update_first_name n x =
     (if n \<noteq> [] \<and> n \<noteq> first_name x then Inr (Some (x\<lparr>first_name := n\<rparr>), True)
      else Inr (Some x, False))"

text \<open>A name field, when present, holds a text.\<close>

definition text_valued :: "details \<Rightarrow> string \<Rightarrow> bool" where
  "text_valued d key = (d key \<noteq> Some PyNone)"

section \<open>The function \<^verbatim>\<open>slugify_username\<close>\<close>

text \<open>
  The character classes of the three patterns of the module. When they are used the
  value holds ASCII characters only, where \<^verbatim>\<open>\w\<close> is a letter, a digit or the
  underscore and \<^verbatim>\<open>\s\<close> is the ASCII part of \<open>isspace\<close>. The code points 46, 64,
  43 and 45 are the full stop, the at sign, the plus sign and the hyphen.
  \<open>username_char\<close> is the class \<^verbatim>\<open>[\w.@+-]\<close> of \<^verbatim>\<open>USERNAME_RE\<close>, \<open>strip_char\<close>
  the class \<^verbatim>\<open>[^\w\s.@+-]\<close> of \<^verbatim>\<open>STRIP_MATCHER\<close> and \<open>cleanup_char\<close> the class
  \<^verbatim>\<open>[-\s]\<close> of \<^verbatim>\<open>CLEANUP_MATCHER\<close>.
\<close>

definition re_word :: "nat \<Rightarrow> bool" where
  "re_word c = ((48 \<le> c \<and> c \<le> 57) \<or> (65 \<le> c \<and> c \<le> 90) \<or> c = 95 \<or> (97 \<le> c \<and> c \<le> 122))"

definition username_char :: "nat \<Rightarrow> bool" where
  "username_char c = (re_word c \<or> c = 46 \<or> c = 64 \<or> c = 43 \<or> c = 45)"

definition strip_char :: "nat \<Rightarrow> bool" where
  "strip_char c = (\<not> (re_word c \<or> isspace c \<or> c = 46 \<or> c = 64 \<or> c = 43 \<or> c = 45))"

definition cleanup_char :: "nat \<Rightarrow> bool" where
  "cleanup_char c = (c = 45 \<or> isspace c)"

text \<open>
  \<^verbatim>\<open>re.match\<close> of a pattern \<^verbatim>\<open>^[C]+$\<close>: the greedy \<^verbatim>\<open>+\<close> takes the longest run of
  characters of the class at the start of the text, which must not be empty, and
  \<^verbatim>\<open>$\<close> holds at the end of the text and also just before a newline (code point 10)
  that ends the text. A shorter run never succeeds where the longest fails.
\<close>

definition match_plus_eol :: "(nat \<Rightarrow> bool) \<Rightarrow> ustr \<Rightarrow> bool" where
  "match_plus_eol C s =
     (takeWhile C s \<noteq> [] \<and> (dropWhile C s = [] \<or> dropWhile C s = [10]))"

text \<open>
  \<^verbatim>\<open>sub\<close> scans the text from the left. For a pattern \<^verbatim>\<open>[C]\<close> every character of
  the class is replaced; for a pattern \<^verbatim>\<open>[C]+\<close> a match starts at a character of the
  class and takes all characters of the class that follow it.
\<close>

fun sub_one :: "(nat \<Rightarrow> bool) \<Rightarrow> ustr \<Rightarrow> ustr \<Rightarrow> ustr" where
  "sub_one C repl [] = []"
| "sub_one C repl (c # cs) =
     (if C c then repl @ sub_one C repl cs else c # sub_one C repl cs)"

function sub_plus :: "(nat \<Rightarrow> bool) \<Rightarrow> ustr \<Rightarrow> ustr \<Rightarrow> ustr" where
  "sub_plus C repl [] = []"
| "sub_plus C repl (c # cs) =
     (if C c then repl @ sub_plus C repl (dropWhile C cs) else c # sub_plus C repl cs)"
  by pat_completeness auto
termination
  by (relation "measure (\<lambda>(C, repl, s). length s)")
     (auto intro: le_imp_less_Suc length_dropWhile_le)

text \<open>
  \<^verbatim>\<open>unicodedata.normalize('NFKD', ...)\<close> is the parameter \<open>nfkd\<close>;
  \<^verbatim>\<open>encode('ascii', 'ignore')\<close> drops every code point from 128 on, and
  \<^verbatim>\<open>decode('ascii')\<close> gives the same code points back. \<^verbatim>\<open>force_text\<close> returns a text
  as it is.
\<close>

definition encode_ascii_ignore :: "ustr \<Rightarrow> ustr" where
  "encode_ascii_ignore s = filter (\<lambda>c. c < 128) s"

definition slugify_username :: "(ustr \<Rightarrow> ustr) \<Rightarrow> ustr \<Rightarrow> ustr" where
  "slugify_username nfkd v =
     (let value = encode_ascii_ignore (nfkd v)
      in if match_plus_eol username_char value then value
         else sub_plus cleanup_char [45] (py_strip (sub_one strip_char [] value)))"

text \<open>
  A few rows of the compatibility decomposition, to run the function on examples:
  e with acute, N with tilde and u with acute decompose into the letter and the
  combining mark.
\<close>

fun decompose :: "nat \<Rightarrow> ustr" where
  "decompose c =
     (if c = 233 then [101, 769]
      else if c = 209 then [78, 771]
      else if c = 250 then [117, 769]
      else [c])"

definition nfkd_sample :: "ustr \<Rightarrow> ustr" where
  "nfkd_sample s = concat (map decompose s)"

text \<open>
  The algorithm in words. A text matches the pattern \<^verbatim>\<open>^[\w.@+-]+$\<close> when it is a
  non-empty sequence of characters of the class, possibly followed by one final newline.
\<close>

definition matches_username :: "ustr \<Rightarrow> bool" where
  "matches_username s =
     (let w = (if s \<noteq> [] \<and> last s = 10 then butlast s else s)
      in w \<noteq> [] \<and> list_all username_char w)"

text \<open>
  The maximal runs of a text with respect to a class: consecutive characters that are
  all in the class or all outside it. Each run inside the class is replaced.
\<close>

fun runs :: "('a \<Rightarrow> bool) \<Rightarrow> 'a list \<Rightarrow> 'a list list" where
  "runs P [] = []"
| "runs P (x # xs) =
     (case runs P xs of
        [] \<Rightarrow> [[x]]
      | g # gs \<Rightarrow> if P x = P (hd g) then (x # g) # gs else [x] # g # gs)"

definition replace_runs :: "('a \<Rightarrow> bool) \<Rightarrow> 'a list \<Rightarrow> 'a list \<Rightarrow> 'a list" where
  "replace_runs P repl s = concat (map (\<lambda>g. if P (hd g) then repl else g) (runs P s))"

definition slugify_in_words :: "(ustr \<Rightarrow> ustr) \<Rightarrow> ustr \<Rightarrow> ustr" where
  "slugify_in_words nfkd v =
     (let value = filter (\<lambda>c. c < 128) (nfkd v)
      in if matches_username value then value
         else replace_runs (\<lambda>c. isspace c \<or> c = 45) [45]
                (py_strip (filter (\<lambda>c. re_word c \<or> isspace c \<or> c = 46 \<or> c = 64 \<or>
                                       c = 43 \<or> c = 45) value)))"

section \<open>Sample data\<close>

text \<open>A user, two of her social identities and another user, to run the steps on.\<close>

definition ann :: user where
  "ann = \<lparr>pk = Some 7, is_authenticated = True, username = u ''ann'',
          user_email = u ''a@x.org'', first_name = u ''Ann''\<rparr>"

definition alice :: user where
  "alice = \<lparr>pk = Some 1, is_authenticated = True, username = u ''Alice'',
            user_email = u ''alice@example.org'', first_name = u ''Alice''\<rparr>"

definition gh1 :: social_auth where
  "gh1 = \<lparr>social_id = 1, social_user = 7, uid = u ''ann-gh''\<rparr>"

definition gl2 :: social_auth where
  "gl2 = \<lparr>social_id = 2, social_user = 7, uid = u ''ann-gl''\<rparr>"

section \<open>Properties of \<^verbatim>\<open>ensure_valid\<close>\<close>

text \<open>
  Claim C3. Whenever the stored expiry timestamp lies in the past, \<^verbatim>\<open>ensure_valid\<close>
  fails with \<^verbatim>\<open>LinkExpired\<close>, whatever the user, \<^verbatim>\<open>registering_user\<close> and
  \<^verbatim>\<open>weblate_action\<close> are; in particular a password-reset flow fails too.
\<close>

theorem ensure_valid_expired:
  assumes "of_int weblate_expires < now"
  shows "ensure_valid now backend usr registering_user weblate_action weblate_expires
           = Inl (LinkExpired backend)
         \<and> ensure_valid now backend usr registering_user ''reset'' weblate_expires
           = Inl (LinkExpired backend)"
  using assms by (simp add: ensure_valid_def)

theorem ensure_valid_expired_witness:
  "of_int (100::int) < (101::real) \<and>
   ensure_valid 101 ''email''
     (Some \<lparr>pk = Some 7, is_authenticated = True, username = u ''ann'',
            user_email = u ''a@b.c'', first_name = u ''Ann''\<rparr>)
     (Some 7) ''activation'' 100 = Inl (LinkExpired ''email'') \<and>
   ensure_valid 101 ''email''
     (Some \<lparr>pk = Some 7, is_authenticated = True, username = u ''ann'',
            user_email = u ''a@b.c'', first_name = u ''Ann''\<rparr>)
     (Some 7) ''reset'' 100 = Inl (LinkExpired ''email'')"
proof -
  have h: "of_int (100::int) < (101::real)" by simp
  show ?thesis using h ensure_valid_expired [OF h] by simp
qed

text \<open>
  Claim C4. With an unexpired timestamp: a \<^verbatim>\<open>reset\<close> flow returns normally without
  any comparison of users; every other flow returns normally exactly when the id of the
  authenticated user (none when there is no user or the user is not authenticated)
  equals \<^verbatim>\<open>registering_user\<close>, and fails with \<^verbatim>\<open>SessionUserMismatch\<close> otherwise.
\<close>

theorem ensure_valid_unexpired:
  assumes "\<not> of_int weblate_expires < now"
  shows "ensure_valid now backend usr registering_user weblate_action weblate_expires =
           (if weblate_action = ''reset'' then Inr ()
            else if current_user_id usr = registering_user then Inr ()
            else Inl (SessionUserMismatch backend))"
  using assms by (simp add: ensure_valid_def current_user_id_def)

theorem ensure_valid_unexpired_witness:
  "\<not> of_int (100::int) < (100::real) \<and>
   ensure_valid 100 ''github''
     (Some \<lparr>pk = Some 7, is_authenticated = True, username = u ''ann'',
            user_email = u ''a@b.c'', first_name = u ''Ann''\<rparr>)
     (Some 8) ''reset'' 100 = Inr () \<and>
   ensure_valid 100 ''github''
     (Some \<lparr>pk = Some 7, is_authenticated = True, username = u ''ann'',
            user_email = u ''a@b.c'', first_name = u ''Ann''\<rparr>)
     (Some 8) ''activation'' 100 = Inl (SessionUserMismatch ''github'') \<and>
   ensure_valid 100 ''github''
     (Some \<lparr>pk = Some 7, is_authenticated = False, username = u ''ann'',
            user_email = u ''a@b.c'', first_name = u ''Ann''\<rparr>)
     None ''activation'' 100 = Inr ()"
proof -
  have h: "\<not> of_int (100::int) < (100::real)" by simp
  show ?thesis
    using h ensure_valid_unexpired [OF h, of "''github''" _ "Some 8" "''reset''"]
      ensure_valid_unexpired [OF h, of "''github''" _ "Some 8" "''activation''"]
      ensure_valid_unexpired [OF h, of "''github''" _ None "''activation''"]
    by (simp add: current_user_id_def)
qed

section \<open>Properties of the secondary-email fetch\<close>

lemma email_loop_no_primary:
  "filter (\<lambda>e. entry_verified e \<and> entry_primary e) data = [] \<Longrightarrow>
   email_loop acc data =
     (case first_email (rev (filter entry_verified data)) of None \<Rightarrow> acc | Some e \<Rightarrow> Some e)"
proof (induction data arbitrary: acc)
  case Nil
  then show ?case by (simp add: first_email_def)
next
  case (Cons e data)
  then show ?case
    by (auto simp: first_email_def split: list.splits if_splits option.splits)
qed

lemma email_loop_primary:
  "filter (\<lambda>e. entry_verified e \<and> entry_primary e) data = p # ps \<Longrightarrow>
   email_loop acc data = Some (entry_email p)"
  by (induction data arbitrary: acc) (auto split: if_splits)

lemma email_loop_selected: "email_loop None data = primary_else_last_verified data"
proof (cases "filter (\<lambda>e. entry_verified e \<and> entry_primary e) data")
  case Nil
  then show ?thesis
    by (simp add: email_loop_no_primary primary_else_last_verified_def split: option.splits)
next
  case (Cons p ps)
  then show ?thesis by (simp add: email_loop_primary primary_else_last_verified_def)
qed

text \<open>
  Claim C5, as amended. For every list of entries the endpoint returns, the address
  \<^verbatim>\<open>get_github_email\<close> selects is that of the first verified primary entry when there is
  one, and otherwise that of the last verified entry (none when no entry is verified);
  \<^verbatim>\<open>require_email\<close>, for the backend \<^verbatim>\<open>github\<close>, stores it under \<^verbatim>\<open>email\<close> in
  \<^verbatim>\<open>details\<close> when there is one and leaves \<^verbatim>\<open>details\<close> as it is otherwise.
\<close>

theorem github_email_selected:
  assumes "fetch token = Inr data" and "response ''access_token'' = Some token"
  shows "get_github_email fetch token = Inr (primary_else_last_verified data) \<and>
         (\<exists>r. require_email fetch ''github'' d usr is_new response =
                Inr (case primary_else_last_verified data of
                       None \<Rightarrow> d
                     | Some email \<Rightarrow> d(''email'' \<mapsto> PyStr email), r))"
  using assms
  by (simp add: get_github_email_def require_email_def email_loop_selected
        split: option.splits)

theorem github_email_selected_witness:
  "get_github_email (serve [\<lparr>entry_email = u ''a@x.org'', entry_verified = True, entry_primary = False\<rparr>, \<lparr>entry_email = u ''c@x.org'', entry_verified = False, entry_primary = True\<rparr>, \<lparr>entry_email = u ''b@x.org'', entry_verified = True, entry_primary = False\<rparr>]) (u ''t'') = Inr (Some (u ''b@x.org'')) \<and>
   require_email (serve [\<lparr>entry_email = u ''a@x.org'', entry_verified = True, entry_primary = False\<rparr>, \<lparr>entry_email = u ''c@x.org'', entry_verified = False, entry_primary = True\<rparr>, \<lparr>entry_email = u ''b@x.org'', entry_verified = True, entry_primary = False\<rparr>]) ''github'' Map.empty None True
       [''access_token'' \<mapsto> u ''t'']
     = Inr ([''email'' \<mapsto> PyStr (u ''b@x.org'')], Continue) \<and>
   get_github_email (serve [\<lparr>entry_email = u ''a@x.org'', entry_verified = True, entry_primary = False\<rparr>, \<lparr>entry_email = u ''p@x.org'', entry_verified = True, entry_primary = True\<rparr>, \<lparr>entry_email = u ''b@x.org'', entry_verified = True, entry_primary = False\<rparr>]) (u ''t'') = Inr (Some (u ''p@x.org''))"
  using github_email_selected [of "serve [\<lparr>entry_email = u ''a@x.org'', entry_verified = True, entry_primary = False\<rparr>, \<lparr>entry_email = u ''c@x.org'', entry_verified = False, entry_primary = True\<rparr>, \<lparr>entry_email = u ''b@x.org'', entry_verified = True, entry_primary = False\<rparr>]" "u ''t''" "[\<lparr>entry_email = u ''a@x.org'', entry_verified = True, entry_primary = False\<rparr>, \<lparr>entry_email = u ''c@x.org'', entry_verified = False, entry_primary = True\<rparr>, \<lparr>entry_email = u ''b@x.org'', entry_verified = True, entry_primary = False\<rparr>]"
      "[''access_token'' \<mapsto> u ''t'']" Map.empty None True]
    github_email_selected [of "serve [\<lparr>entry_email = u ''a@x.org'', entry_verified = True, entry_primary = False\<rparr>, \<lparr>entry_email = u ''p@x.org'', entry_verified = True, entry_primary = True\<rparr>, \<lparr>entry_email = u ''b@x.org'', entry_verified = True, entry_primary = False\<rparr>]" "u ''t''" "[\<lparr>entry_email = u ''a@x.org'', entry_verified = True, entry_primary = False\<rparr>, \<lparr>entry_email = u ''p@x.org'', entry_verified = True, entry_primary = True\<rparr>, \<lparr>entry_email = u ''b@x.org'', entry_verified = True, entry_primary = False\<rparr>]"
      "[''access_token'' \<mapsto> u ''t'']" Map.empty None True]
  by (auto simp: primary_else_last_verified_def first_email_def serve_def
        require_email_def has_email_def get_github_email_def u_def)

text \<open>
  The claim as it is written, with the first verified entry as the fallback, fails on two
  verified entries of which none is primary: the loop keeps the last one.
\<close>

theorem github_email_first_verified_counterexample:
  "get_github_email (serve [\<lparr>entry_email = u ''a@x.org'', entry_verified = True, entry_primary = False\<rparr>, \<lparr>entry_email = u ''b@x.org'', entry_verified = True, entry_primary = False\<rparr>]) (u ''t'')
     \<noteq> Inr (primary_else_first_verified [\<lparr>entry_email = u ''a@x.org'', entry_verified = True, entry_primary = False\<rparr>, \<lparr>entry_email = u ''b@x.org'', entry_verified = True, entry_primary = False\<rparr>])"
  by (simp add: get_github_email_def serve_def primary_else_first_verified_def
        first_email_def u_def)

section \<open>Properties of \<^verbatim>\<open>verify_username\<close>\<close>

text \<open>
  Claim C6. \<^verbatim>\<open>verify_username\<close> returns normally when a user is bound or
  \<^verbatim>\<open>details\<close> has no key \<^verbatim>\<open>username\<close>; otherwise it fails with
  \<^verbatim>\<open>AuthAlreadyAssociated\<close> exactly when the account store holds a user whose name
  matches \<^verbatim>\<open>details['username']\<close> case-insensitively, and returns normally when it
  holds none. The step returns nothing and has no store to change.
\<close>

theorem verify_username_result:
  "verify_username iexact users backend d usr =
     (if usr \<noteq> None \<or> d ''username'' = None then Inr ()
      else if \<exists>x \<in> set users. \<exists>name. d ''username'' = Some (PyStr name) \<and> iexact (username x) name
           then Inl (AuthAlreadyAssociated backend)
           else Inr ())"
proof (cases usr)
  case (Some x)
  then show ?thesis by (simp add: verify_username_def)
next
  case None
  show ?thesis
  proof (cases "d ''username''")
    case None
    with \<open>usr = None\<close> show ?thesis by (simp add: verify_username_def)
  next
    case (Some v)
    have "(filter (username_iexact iexact v) users \<noteq> []) =
          (\<exists>x \<in> set users. \<exists>name. v = PyStr name \<and> iexact (username x) name)"
      by (cases v) (auto simp: filter_empty_conv username_iexact_def)
    with Some \<open>usr = None\<close> show ?thesis by (simp add: verify_username_def)
  qed
qed

theorem verify_username_result_witness:
  "verify_username iexact_ascii [alice] ''github'' [''username'' \<mapsto> PyStr (u ''aLICE'')] None
     = Inl (AuthAlreadyAssociated ''github'') \<and>
   verify_username iexact_ascii [alice] ''github'' [''username'' \<mapsto> PyStr (u ''bob'')] None
     = Inr () \<and>
   verify_username iexact_ascii [alice] ''github'' [''username'' \<mapsto> PyStr (u ''aLICE'')] (Some alice)
     = Inr () \<and>
   verify_username iexact_ascii [alice] ''github'' Map.empty None = Inr ()"
  using verify_username_result [of iexact_ascii "[alice]" "''github''" "[''username'' \<mapsto> PyStr (u ''aLICE'')]" None]
    verify_username_result [of iexact_ascii "[alice]" "''github''" "[''username'' \<mapsto> PyStr (u ''bob'')]" None]
    verify_username_result [of iexact_ascii "[alice]" "''github''" "[''username'' \<mapsto> PyStr (u ''aLICE'')]" "Some alice"]
    verify_username_result [of iexact_ascii "[alice]" "''github''" Map.empty None]
  by (simp add: alice_def iexact_ascii_def ascii_lower_def u_def)

section \<open>Properties of \<^verbatim>\<open>store_email\<close>\<close>

lemma filter_single_unique:
  "filter P xs = [r] \<Longrightarrow> x \<in> set xs \<Longrightarrow> P x \<Longrightarrow> x = r"
proof -
  assume a: "filter P xs = [r]" and b: "x \<in> set xs" and c: "P x"
  from b c have "x \<in> set (filter P xs)" by simp
  with a show "x = r" by simp
qed

lemma filter_single_holds: "filter P xs = [r] \<Longrightarrow> P r \<and> r \<in> set xs"
proof -
  assume a: "filter P xs = [r]"
  have "r \<in> set (filter P xs)" using a by simp
  then show ?thesis by simp
qed

lemma store_email_absent:
  assumes "d ''email'' = Some (PyStr email)" and "filter (same_social social) rows = []"
  shows "store_email blank rows backend social d =
           Inr (rows @ [\<lparr>ve_social = social, ve_email = email\<rparr>])"
proof -
  from assms(2) have none: "\<forall>r \<in> set rows. \<not> same_social social r"
    by (simp add: filter_empty_conv)
  then have "map (\<lambda>r. if same_social social r then \<lparr>ve_social = social, ve_email = email\<rparr> else r) rows = rows"
    by (simp add: map_idI)
  then show ?thesis
    using assms by (simp add: store_email_def get_or_create_def save_verified_def same_social_def Let_def)
qed

lemma store_email_present:
  assumes "d ''email'' = Some (PyStr email)" and "filter (same_social social) rows = [r]"
  shows "store_email blank rows backend social d =
           Inr (map (\<lambda>x. if same_social social x then x\<lparr>ve_email := email\<rparr> else x) rows)"
proof -
  from assms(2) have r: "same_social social r" "r \<in> set rows"
    using filter_single_holds [of "same_social social" rows r] by simp_all
  have uniq: "\<And>x. x \<in> set rows \<Longrightarrow> same_social social x \<Longrightarrow> x = r"
    using filter_single_unique [OF assms(2)] by blast
  have same: "\<And>x. same_social (ve_social r) x = same_social social x"
    using r(1) by (simp add: same_social_def)
  have m: "map (\<lambda>x. if same_social social x then r\<lparr>ve_email := email\<rparr> else x) rows =
           map (\<lambda>x. if same_social social x then x\<lparr>ve_email := email\<rparr> else x) rows"
    by (rule map_cong) (auto dest: uniq)
  show ?thesis
  proof (cases "ve_email r = email")
    case True
    have "map (\<lambda>x. if same_social social x then x\<lparr>ve_email := email\<rparr> else x) rows = rows"
      by (rule map_idI) (use True uniq in auto)
    with True assms show ?thesis
      by (simp add: store_email_def get_or_create_def)
  next
    case False
    with assms m show ?thesis
      by (simp add: store_email_def get_or_create_def save_verified_def same)
  qed
qed

lemma store_email_missing:
  "(store_email blank rows backend social d = Inl (MissingEmail backend)) =
     (d ''email'' = None \<or> d ''email'' = Some PyNone)"
  by (auto simp: store_email_def get_or_create_def Let_def
           split: option.splits pyval.splits list.splits sum.splits)

lemma store_email_duplicates:
  assumes "d ''email'' = Some (PyStr email)"
    and "1 < length (filter (same_social social) rows)"
  shows "store_email blank rows backend social d = Inl MultipleObjectsReturned"
proof -
  from assms(2) obtain r r' rs where "filter (same_social social) rows = r # r' # rs"
    by (cases "filter (same_social social) rows" rule: list.exhaust)
       (auto simp: neq_Nil_conv)
  with assms(1) show ?thesis
    by (simp add: store_email_def get_or_create_def)
qed

text \<open>
  Claim C7, as amended. \<^verbatim>\<open>store_email\<close> fails with \<^verbatim>\<open>MissingEmail\<close> exactly when
  \<^verbatim>\<open>details\<close> has no email (the key is absent or its value is \<^verbatim>\<open>None\<close>). Otherwise,
  when the table holds at most one row for the social identity, it returns normally with
  a table that has exactly one row for that identity, whose email is
  \<^verbatim>\<open>details['email']\<close>; the rows of other identities are kept; the row is appended when
  there was none, the table is unchanged when the row already held that email, and only
  the email of that row is replaced when it differed. When the table holds several rows
  for the identity, the step fails with \<^verbatim>\<open>MultipleObjectsReturned\<close>.
\<close>

theorem store_email_result:
  "((store_email blank rows backend social d = Inl (MissingEmail backend)) =
      (d ''email'' = None \<or> d ''email'' = Some PyNone)) \<and>
   (d ''email'' = Some (PyStr email) \<and> length (filter (same_social social) rows) \<le> 1 \<longrightarrow>
      (\<exists>rows'. store_email blank rows backend social d = Inr rows' \<and>
         (\<exists>r. filter (same_social social) rows' = [r] \<and> ve_email r = email) \<and>
         filter (\<lambda>r. \<not> same_social social r) rows' = filter (\<lambda>r. \<not> same_social social r) rows \<and>
         (filter (same_social social) rows = [] \<longrightarrow>
            rows' = rows @ [\<lparr>ve_social = social, ve_email = email\<rparr>]) \<and>
         (\<forall>r. filter (same_social social) rows = [r] \<longrightarrow>
            rows' = (if ve_email r = email then rows
                     else map (\<lambda>x. if same_social social x then x\<lparr>ve_email := email\<rparr> else x) rows)))) \<and>
   (d ''email'' = Some (PyStr email) \<and> 1 < length (filter (same_social social) rows) \<longrightarrow>
      store_email blank rows backend social d = Inl MultipleObjectsReturned)"
proof (intro conjI impI)
  show "(store_email blank rows backend social d = Inl (MissingEmail backend)) =
      (d ''email'' = None \<or> d ''email'' = Some PyNone)"
    by (rule store_email_missing)
next
  assume a: "d ''email'' = Some (PyStr email) \<and> length (filter (same_social social) rows) \<le> 1"
  then have e: "d ''email'' = Some (PyStr email)" by simp
  let ?upd = "\<lambda>x. if same_social social x then x\<lparr>ve_email := email\<rparr> else x"
  have keep: "\<And>x. same_social social (x\<lparr>ve_email := email\<rparr>) = same_social social x"
    by (simp add: same_social_def)
  have f1: "filter (same_social social) (map ?upd rows) = map ?upd (filter (same_social social) rows)"
    by (induction rows) (simp_all add: keep)
  have f2: "filter (\<lambda>r. \<not> same_social social r) (map ?upd rows) = filter (\<lambda>r. \<not> same_social social r) rows"
    by (induction rows) (simp_all add: keep)
  consider "filter (same_social social) rows = []" | r where "filter (same_social social) rows = [r]"
    using a by (cases "filter (same_social social) rows" rule: list.exhaust)
               (auto simp: length_Suc_conv)
  then show "\<exists>rows'. store_email blank rows backend social d = Inr rows' \<and>
         (\<exists>r. filter (same_social social) rows' = [r] \<and> ve_email r = email) \<and>
         filter (\<lambda>r. \<not> same_social social r) rows' = filter (\<lambda>r. \<not> same_social social r) rows \<and>
         (filter (same_social social) rows = [] \<longrightarrow>
            rows' = rows @ [\<lparr>ve_social = social, ve_email = email\<rparr>]) \<and>
         (\<forall>r. filter (same_social social) rows = [r] \<longrightarrow>
            rows' = (if ve_email r = email then rows
                     else map (\<lambda>x. if same_social social x then x\<lparr>ve_email := email\<rparr> else x) rows))"
  proof cases
    case 1
    then show ?thesis
      using store_email_absent [of d email social rows blank backend] e
      by (simp add: same_social_def)
  next
    case (2 r)
    have r: "same_social social r" using filter_single_holds [OF 2] by simp
    have uniq: "\<And>x. x \<in> set rows \<Longrightarrow> same_social social x \<Longrightarrow> x = r"
      using filter_single_unique [OF 2] by blast
    have idm: "ve_email r = email \<Longrightarrow> map ?upd rows = rows"
      by (rule map_idI) (use uniq in auto)
    show ?thesis
      using store_email_present [of d email social rows r blank backend] e 2 r idm
      by (auto simp: f1 f2)
  qed
next
  assume "d ''email'' = Some (PyStr email) \<and> 1 < length (filter (same_social social) rows)"
  then show "store_email blank rows backend social d = Inl MultipleObjectsReturned"
    using store_email_duplicates [of d email social rows blank backend] by simp
qed

theorem store_email_result_witness:
  "store_email [] [\<lparr>ve_social = gh1, ve_email = u ''old@x.org''\<rparr>] ''github'' gh1 Map.empty
     = Inl (MissingEmail ''github'') \<and>
   store_email [] [\<lparr>ve_social = gh1, ve_email = u ''old@x.org''\<rparr>] ''github'' gh1
     [''email'' \<mapsto> PyStr (u ''new@x.org'')]
     = Inr [\<lparr>ve_social = gh1, ve_email = u ''new@x.org''\<rparr>] \<and>
   store_email [] [\<lparr>ve_social = gh1, ve_email = u ''old@x.org''\<rparr>] ''gitlab'' gl2
     [''email'' \<mapsto> PyStr (u ''new@x.org'')]
     = Inr [\<lparr>ve_social = gh1, ve_email = u ''old@x.org''\<rparr>,
            \<lparr>ve_social = gl2, ve_email = u ''new@x.org''\<rparr>] \<and>
   store_email [] [\<lparr>ve_social = gh1, ve_email = u ''a@x.org''\<rparr>,
                   \<lparr>ve_social = gh1, ve_email = u ''b@x.org''\<rparr>] ''github'' gh1
     [''email'' \<mapsto> PyStr (u ''b@x.org'')]
     = Inl MultipleObjectsReturned"
  using store_email_result [of "[]" "[\<lparr>ve_social = gh1, ve_email = u ''old@x.org''\<rparr>]" "''github''" gh1 Map.empty "[]"]
    store_email_result [of "[]"
       "[\<lparr>ve_social = gh1, ve_email = u ''a@x.org''\<rparr>,
         \<lparr>ve_social = gh1, ve_email = u ''b@x.org''\<rparr>]" "''github''" gh1
       "[''email'' \<mapsto> PyStr (u ''b@x.org'')]" "u ''b@x.org''"]
    store_email_result [of "[]" "[\<lparr>ve_social = gh1, ve_email = u ''old@x.org''\<rparr>]" "''github''" gh1
       "[''email'' \<mapsto> PyStr (u ''new@x.org'')]" "u ''new@x.org''"]
    store_email_result [of "[]" "[\<lparr>ve_social = gh1, ve_email = u ''old@x.org''\<rparr>]" "''gitlab''" gl2
       "[''email'' \<mapsto> PyStr (u ''new@x.org'')]" "u ''new@x.org''"]
  by (auto simp: same_social_def gh1_def gl2_def u_def)

text \<open>
  As the claim is written, for every call with an email, it fails: on a table with two
  rows for the social identity \<^verbatim>\<open>get_or_create\<close> raises, and the step neither stores
  the email nor returns.
\<close>

theorem store_email_duplicate_rows_counterexample:
  "store_email []
     [\<lparr>ve_social = gh1, ve_email = u ''old@x.org''\<rparr>,
      \<lparr>ve_social = gh1, ve_email = u ''new@x.org''\<rparr>]
     ''github'' gh1 [''email'' \<mapsto> PyStr (u ''new@x.org'')]
   = Inl MultipleObjectsReturned"
  by (simp add: store_email_def get_or_create_def same_social_def gh1_def)

section \<open>Properties of \<^verbatim>\<open>revoke_mail_code\<close>\<close>

text \<open>
  Claim C9. \<^verbatim>\<open>revoke_mail_code\<close> reads \<^verbatim>\<open>details['email']\<close> before it looks for
  \<^verbatim>\<open>verification_code\<close> in the request data: when \<^verbatim>\<open>details\<close> has no key
  \<^verbatim>\<open>email\<close> it raises \<^verbatim>\<open>KeyError\<close>, whatever the request data and the stored codes
  are, and it raises that error in no other case; so it returns normally only when the
  key is present.
\<close>

theorem revoke_mail_code_email_key:
  "(d ''email'' = None \<longrightarrow> revoke_mail_code data codes d = Inl (KeyError ''email'')) \<and>
   (revoke_mail_code data codes d = Inl (KeyError ''email'') \<longrightarrow> d ''email'' = None) \<and>
   (revoke_mail_code data codes d = Inr codes' \<longrightarrow> d ''email'' \<noteq> None)"
  by (auto simp: revoke_mail_code_def split: option.splits list.splits if_splits)

theorem revoke_mail_code_email_key_witness:
  "revoke_mail_code Map.empty [] [''username'' \<mapsto> PyStr (u ''ann'')] = Inl (KeyError ''email'') \<and>
   revoke_mail_code [''verification_code'' \<mapsto> u ''abc'']
     [\<lparr>code_code = u ''abc'', code_email = u ''a@x.org'', code_verified = True\<rparr>]
     [''username'' \<mapsto> PyStr (u ''ann'')] = Inl (KeyError ''email'') \<and>
   revoke_mail_code [''verification_code'' \<mapsto> u ''abc'']
     [\<lparr>code_code = u ''abc'', code_email = u ''a@x.org'', code_verified = True\<rparr>]
     [''email'' \<mapsto> PyStr (u ''a@x.org'')] = Inr []"
  using revoke_mail_code_email_key [of "[''username'' \<mapsto> PyStr (u ''ann'')]" Map.empty "[]" "[]"]
    revoke_mail_code_email_key [of "[''username'' \<mapsto> PyStr (u ''ann'')]"
      "[''verification_code'' \<mapsto> u ''abc'']"
      "[\<lparr>code_code = u ''abc'', code_email = u ''a@x.org'', code_verified = True\<rparr>]" "[]"]
    revoke_mail_code_email_key [of "[''email'' \<mapsto> PyStr (u ''a@x.org'')]"
      "[''verification_code'' \<mapsto> u ''abc'']"
      "[\<lparr>code_code = u ''abc'', code_email = u ''a@x.org'', code_verified = True\<rparr>]" "[]"]
  by (simp add: revoke_mail_code_def code_matches_def u_def)

section \<open>Properties of \<^verbatim>\<open>adjust_primary_mail\<close>\<close>

text \<open>
  Claim C10. When no verified email of the user remains after the disconnected
  identities are excluded, \<^verbatim>\<open>adjust_primary_mail\<close> fails with \<^verbatim>\<open>IndexError\<close>; it
  returns normally only when at least one remains. When a remaining row holds the
  user's current email, the user is returned unchanged, nothing is saved and no message
  is sent; otherwise the user gets the email of the first remaining row.
\<close>

theorem adjust_primary_mail_result:
  "(remaining_verified rows entries usr = [] \<longrightarrow>
      adjust_primary_mail rows entries usr = Inl IndexError) \<and>
   (adjust_primary_mail rows entries usr = Inr res \<longrightarrow>
      remaining_verified rows entries usr \<noteq> []) \<and>
   ((\<exists>r \<in> set (remaining_verified rows entries usr). ve_email r = user_email usr) \<longrightarrow>
      adjust_primary_mail rows entries usr = Inr (usr, [])) \<and>
   (\<not> (\<exists>r \<in> set (remaining_verified rows entries usr). ve_email r = user_email usr) \<longrightarrow>
      (\<forall>r rs. remaining_verified rows entries usr = r # rs \<longrightarrow>
         adjust_primary_mail rows entries usr =
           Inr (usr\<lparr>user_email := ve_email r\<rparr>,
                [UserSaved (usr\<lparr>user_email := ve_email r\<rparr>), Warning (ve_email r)])))"
  by (auto simp: adjust_primary_mail_def Let_def filter_empty_conv split: list.splits)

theorem adjust_primary_mail_result_witness:
  "adjust_primary_mail [\<lparr>ve_social = gh1, ve_email = u ''a@x.org''\<rparr>] [gh1] ann = Inl IndexError \<and>
   adjust_primary_mail [\<lparr>ve_social = gh1, ve_email = u ''a@x.org''\<rparr>,
                        \<lparr>ve_social = gl2, ve_email = u ''a@x.org''\<rparr>] [gh1] ann = Inr (ann, []) \<and>
   adjust_primary_mail [\<lparr>ve_social = gh1, ve_email = u ''a@x.org''\<rparr>,
                        \<lparr>ve_social = gl2, ve_email = u ''b@x.org''\<rparr>] [gh1] ann
     = Inr (ann\<lparr>user_email := u ''b@x.org''\<rparr>,
            [UserSaved (ann\<lparr>user_email := u ''b@x.org''\<rparr>), Warning (u ''b@x.org'')])"
  using adjust_primary_mail_result [of "[\<lparr>ve_social = gh1, ve_email = u ''a@x.org''\<rparr>]" "[gh1]" ann "(ann, [])"]
    adjust_primary_mail_result [of "[\<lparr>ve_social = gh1, ve_email = u ''a@x.org''\<rparr>,
                        \<lparr>ve_social = gl2, ve_email = u ''a@x.org''\<rparr>]" "[gh1]" ann "(ann, [])"]
    adjust_primary_mail_result [of "[\<lparr>ve_social = gh1, ve_email = u ''a@x.org''\<rparr>,
                        \<lparr>ve_social = gl2, ve_email = u ''b@x.org''\<rparr>]" "[gh1]" ann "(ann, [])"]
  by (simp add: remaining_verified_def gh1_def gl2_def ann_def u_def)

section \<open>Properties of \<^verbatim>\<open>user_full_name\<close>\<close>

lemma py_strip_Nil: "py_strip [] = []"
  by (simp add: py_strip_def)

lemma py_strip_no_leading: "dropWhile isspace (py_strip s) = py_strip s"
proof (cases "py_strip s = []")
  case True
  then show ?thesis by simp
next
  case False
  define t where "t = dropWhile isspace s"
  have r: "py_strip s = rev (dropWhile isspace (rev t))"
    by (simp add: py_strip_def t_def)
  with False have ne: "dropWhile isspace (rev t) \<noteq> []" by simp
  then have tne: "t \<noteq> []" by auto
  have "hd (py_strip s) = last (dropWhile isspace (rev t))"
    using ne by (simp add: r hd_rev)
  also have "\<dots> = last (rev t)"
    using ne by (metis takeWhile_dropWhile_id last_appendR)
  also have "\<dots> = hd t"
    using tne by (simp add: last_rev)
  finally have "hd (py_strip s) = hd t" .
  moreover have "\<not> isspace (hd t)"
    using tne unfolding t_def by (rule hd_dropWhile)
  ultimately have "\<not> isspace (hd (py_strip s))" by simp
  with False show ?thesis by (cases "py_strip s") simp_all
qed

lemma py_strip_idem: "py_strip (py_strip s) = py_strip s"
proof -
  have "py_strip (py_strip s) = rev (dropWhile isspace (rev (py_strip s)))"
    by (simp add: py_strip_def [of "py_strip s"] py_strip_no_leading)
  also have "\<dots> = py_strip s"
    by (simp add: py_strip_def)
  finally show ?thesis .
qed

lemma take_30: "(if 30 < length s then take 30 s else s) = take 30 s"
  by simp

lemma combine_names_text:
  "combine_names (PyStr f) (PyStr l) = Inr (PyStr (combined_name f l))"
  by (simp add: combined_name_def)

lemma details_get_text:
  "text_valued d key \<Longrightarrow> details_get d key = PyStr (name_field d key)"
  by (auto simp: text_valued_def details_get_def name_field_def
           split: option.splits pyval.splits)

lemma name_field_absent: "d key = None \<Longrightarrow> name_field d key = []"
  by (simp add: name_field_def)

text \<open>
  Claim C8, as amended. For a bound user and name fields that hold texts: the derived
  full name is the trimmed \<^verbatim>\<open>fullname\<close> field when that is not empty; otherwise it is
  the combination of \<^verbatim>\<open>first_name\<close> and \<^verbatim>\<open>last_name\<close> (first, space, last when the
  first name is not empty and not a substring of the last name; the first name alone when
  it is not empty and contained in the last name; the last name alone when the first name
  is empty), trimmed of surrounding whitespace; the result is cut to 30 characters. The
  stored first name is replaced, and the user marked as changed, exactly when the derived
  name is not empty and differs from the stored one.
\<close>

theorem user_full_name_result:
  assumes "text_valued d ''fullname''" and "text_valued d ''first_name''"
    and "text_valued d ''last_name''"
  shows "user_full_name d (Some x) = update_first_name (full_name_trimmed d) x"
proof -
  let ?full = "py_strip (name_field d ''fullname'')"
  let ?comb = "combined_name (name_field d ''first_name'') (name_field d ''last_name'')"
  have g: "details_get d ''fullname'' = PyStr (name_field d ''fullname'')"
    "details_get d ''first_name'' = PyStr (name_field d ''first_name'')"
    "details_get d ''last_name'' = PyStr (name_field d ''last_name'')"
    using assms by (simp_all add: details_get_text)
  show ?thesis
  proof (cases "?full = []")
    case False
    then show ?thesis
      by (simp add: user_full_name_def g strip_method_def py_strip_idem
            full_name_trimmed_def update_first_name_def Let_def take_30)
  next
    case True
    show ?thesis
    proof (cases "d ''first_name'' \<noteq> None \<or> d ''last_name'' \<noteq> None")
      case True
      with \<open>?full = []\<close> show ?thesis
        by (simp add: user_full_name_def g strip_method_def combine_names_text
              full_name_trimmed_def update_first_name_def Let_def take_30
              del: combine_names.simps)
    next
      case False
      then have "?comb = []"
        by (simp add: name_field_absent combined_name_def)
      with False \<open>?full = []\<close> show ?thesis
        by (simp add: user_full_name_def g strip_method_def py_strip_Nil
              full_name_trimmed_def update_first_name_def Let_def take_30)
    qed
  qed
qed

theorem user_full_name_result_witness:
  "user_full_name [''first_name'' \<mapsto> PyStr (u ''Ann''), ''last_name'' \<mapsto> PyStr []] (Some alice)
     = Inr (Some (alice\<lparr>first_name := u ''Ann''\<rparr>), True) \<and>
   user_full_name [''fullname'' \<mapsto> PyStr (u '' Ann Lee ''), ''first_name'' \<mapsto> PyStr (u ''Bob'')]
       (Some alice)
     = Inr (Some (alice\<lparr>first_name := u ''Ann Lee''\<rparr>), True) \<and>
   user_full_name [''first_name'' \<mapsto> PyStr (u ''Lee''), ''last_name'' \<mapsto> PyStr (u ''Ann Lee'')]
       (Some ann)
     = Inr (Some (ann\<lparr>first_name := u ''Lee''\<rparr>), True) \<and>
   user_full_name [''first_name'' \<mapsto> PyStr (u ''Ann''), ''last_name'' \<mapsto> PyStr (u ''Lee'')]
       (Some ann)
     = Inr (Some (ann\<lparr>first_name := u ''Ann Lee''\<rparr>), True) \<and>
   user_full_name [''last_name'' \<mapsto> PyStr (u ''Ann'')] (Some ann) = Inr (Some ann, False)"
  using
    user_full_name_result [of "[''first_name'' \<mapsto> PyStr (u ''Ann''), ''last_name'' \<mapsto> PyStr []]" alice]
    user_full_name_result [of "[''fullname'' \<mapsto> PyStr (u '' Ann Lee ''), ''first_name'' \<mapsto> PyStr (u ''Bob'')]" alice]
    user_full_name_result [of "[''first_name'' \<mapsto> PyStr (u ''Lee''), ''last_name'' \<mapsto> PyStr (u ''Ann Lee'')]" ann]
    user_full_name_result [of "[''first_name'' \<mapsto> PyStr (u ''Ann''), ''last_name'' \<mapsto> PyStr (u ''Lee'')]" ann]
    user_full_name_result [of "[''last_name'' \<mapsto> PyStr (u ''Ann'')]" ann]
  by (simp add: text_valued_def full_name_trimmed_def update_first_name_def name_field_def
        combined_name_def py_strip_def isspace_def alice_def ann_def u_def Let_def
        sublist_code prefix_code)

text \<open>
  Without the second trimming the claim fails: for the first name \<^verbatim>\<open>Ann\<close> and an
  empty last name the combination is \<^verbatim>\<open>Ann\<close> followed by a space, and the step stores
  \<^verbatim>\<open>Ann\<close>.
\<close>

theorem user_full_name_untrimmed_counterexample:
  "user_full_name [''first_name'' \<mapsto> PyStr (u ''Ann''), ''last_name'' \<mapsto> PyStr []] (Some alice)
     \<noteq> update_first_name
         (full_name_as_claimed [''first_name'' \<mapsto> PyStr (u ''Ann''), ''last_name'' \<mapsto> PyStr []])
         alice"
  by (simp add: user_full_name_def details_get_def strip_method_def py_strip_def isspace_def
        update_first_name_def full_name_as_claimed_def name_field_def combined_name_def
        alice_def u_def Let_def)

section \<open>Properties of \<^verbatim>\<open>slugify_username\<close>\<close>

text \<open>
  The runs are a partition of the text into non-empty blocks that are uniform with
  respect to the class, and neighbouring blocks differ: the blocks are maximal.
\<close>

lemma runs_Cons:
  "runs P (x # xs) =
     (x # takeWhile (\<lambda>y. P y = P x) xs) # runs P (dropWhile (\<lambda>y. P y = P x) xs)"
proof (induction xs arbitrary: x)
  case Nil
  show ?case by simp
next
  case (Cons y ys)
  show ?case
  proof (cases "P y = P x")
    case True
    then show ?thesis using Cons [of y] by simp
  next
    case False
    then show ?thesis using Cons [of y] by auto
  qed
qed

lemma concat_runs: "concat (runs P s) = s"
  by (induction s) (auto split: list.splits)

lemma runs_nonempty: "g \<in> set (runs P s) \<Longrightarrow> g \<noteq> []"
  by (induction s arbitrary: g) (auto split: list.splits if_splits)

lemma runs_uniform: "g \<in> set (runs P s) \<Longrightarrow> y \<in> set g \<Longrightarrow> P y = P (hd g)"
proof (induction s arbitrary: g y)
  case Nil
  then show ?case by simp
next
  case (Cons a s)
  show ?case
  proof (cases "runs P s")
    case Nil
    with Cons.prems show ?thesis by simp
  next
    case (Cons h hs)
    have h: "\<And>z. z \<in> set h \<Longrightarrow> P z = P (hd h)"
      using Cons.IH [of h] Cons by simp
    have hs: "\<And>k z. k \<in> set hs \<Longrightarrow> z \<in> set k \<Longrightarrow> P z = P (hd k)"
      using Cons.IH Cons by simp
    show ?thesis
    proof (cases "P a = P (hd h)")
      case True
      with Cons Cons.prems h hs show ?thesis by auto
    next
      case False
      with Cons Cons.prems h hs show ?thesis by auto
    qed
  qed
qed

lemma runs_maximal: "successively (\<lambda>g h. P (hd g) \<noteq> P (hd h)) (runs P s)"
  by (induction s) (auto split: list.splits simp: successively_Cons)

lemma replace_runs_Nil: "replace_runs P repl [] = []"
  by (simp add: replace_runs_def)

lemma replace_runs_Cons_in:
  "P x \<Longrightarrow> replace_runs P repl (x # xs) = repl @ replace_runs P repl (dropWhile P xs)"
  by (simp add: replace_runs_def runs_Cons del: runs.simps)

lemma replace_runs_Cons_out:
  "\<not> P x \<Longrightarrow> replace_runs P repl (x # xs) = x # replace_runs P repl xs"
proof (cases xs)
  case Nil
  assume "\<not> P x"
  with Nil show ?thesis by (simp add: replace_runs_def)
next
  case (Cons y ys)
  assume n: "\<not> P x"
  show ?thesis
  proof (cases "P y")
    case True
    with n Cons show ?thesis
      by (simp add: replace_runs_def runs_Cons [of P x] del: runs.simps)
  next
    case False
    with n Cons show ?thesis
      by (simp add: replace_runs_def runs_Cons del: runs.simps)
  qed
qed

lemma sub_plus_replace_runs: "sub_plus C repl s = replace_runs C repl s"
  by (induction C repl s rule: sub_plus.induct)
     (simp_all add: replace_runs_Nil replace_runs_Cons_in replace_runs_Cons_out)

lemma sub_one_filter: "sub_one C [] s = filter (\<lambda>c. \<not> C c) s"
  by (induction s) simp_all

lemma not_username_char_newline: "\<not> username_char 10"
  by (simp add: username_char_def re_word_def)

lemma match_plus_eol_all:
  "s \<noteq> [] \<Longrightarrow> list_all C s \<Longrightarrow> match_plus_eol C s"
  by (simp add: match_plus_eol_def list_all_iff takeWhile_eq_all_conv [THEN iffD2]
        dropWhile_eq_Nil_conv)

lemma match_plus_eol_matches:
  "match_plus_eol username_char s = matches_username s"
proof (cases "s \<noteq> [] \<and> last s = 10")
  case True
  then obtain w where s: "s = w @ [10]"
    by (metis append_butlast_last_id)
  have tw: "list_all username_char w \<Longrightarrow> takeWhile username_char (w @ [10]) = w"
    by (simp add: takeWhile_append2 list_all_iff not_username_char_newline)
  have dw: "list_all username_char w \<Longrightarrow> dropWhile username_char (w @ [10]) = [10]"
    by (simp add: dropWhile_append2 list_all_iff not_username_char_newline)
  have nd: "dropWhile username_char (w @ [10]) \<noteq> []"
    by (simp add: dropWhile_eq_Nil_conv not_username_char_newline)
  have conv: "dropWhile username_char (w @ [10]) = [10] \<Longrightarrow> list_all username_char w"
  proof -
    assume a: "dropWhile username_char (w @ [10]) = [10]"
    have "takeWhile username_char (w @ [10]) @ [10] = w @ [10]"
      using takeWhile_dropWhile_id [of username_char "w @ [10]"] a by simp
    then have "takeWhile username_char (w @ [10]) = w" by simp
    then have "\<forall>x \<in> set w. username_char x"
      by (metis set_takeWhileD)
    then show ?thesis by (simp add: list_all_iff)
  qed
  show ?thesis
  proof (cases "list_all username_char w")
    case True
    then show ?thesis
      using tw dw by (simp add: match_plus_eol_def matches_username_def s)
  next
    case False
    then show ?thesis
      using conv nd by (auto simp: match_plus_eol_def matches_username_def s)
  qed
next
  case False
  then have w: "matches_username s = (s \<noteq> [] \<and> list_all username_char s)"
    by (auto simp: matches_username_def)
  show ?thesis
  proof (cases "s \<noteq> [] \<and> list_all username_char s")
    case True
    then show ?thesis using w by (simp add: match_plus_eol_all)
  next
    case f: False
    have "\<not> match_plus_eol username_char s"
    proof
      assume m: "match_plus_eol username_char s"
      then have ne: "s \<noteq> []" by (auto simp: match_plus_eol_def)
      from m consider "dropWhile username_char s = []" | "dropWhile username_char s = [10]"
        by (auto simp: match_plus_eol_def)
      then show False
      proof cases
        case 1
        then have "list_all username_char s"
          by (simp add: dropWhile_eq_Nil_conv list_all_iff)
        with ne f show False by simp
      next
        case 2
        have "s = takeWhile username_char s @ [10]"
          using takeWhile_dropWhile_id [of username_char s] 2 by simp
        then have "last s = 10" by (metis last_snoc)
        with ne False show False by simp
      qed
    qed
    with f w show ?thesis by simp
  qed
qed

lemma slugify_examples:
  "slugify_username nfkd_sample (u ''a - b  --c '' @ [10]) = u ''a-b-c''"
  "slugify_username nfkd_sample (u ''ann@x.org'' @ [10]) = u ''ann@x.org'' @ [10]"
  by (simp_all add: slugify_username_def encode_ascii_ignore_def nfkd_sample_def
        match_plus_eol_def username_char_def re_word_def strip_char_def cleanup_char_def
        isspace_def py_strip_def u_def Let_def)

text \<open>
  Claim C2. For every text, \<^verbatim>\<open>slugify_username\<close> normalizes by compatibility
  decomposition and drops every non-ASCII character; when the result matches the
  pattern \<^verbatim>\<open>^[\w.@+-]+$\<close> it is returned unchanged; otherwise every character outside
  \<^verbatim>\<open>[\w\s.@+-]\<close> is removed, the result is trimmed of surrounding whitespace, and every
  maximal run of whitespace and hyphens is replaced by one hyphen.
\<close>

theorem slugify_username_algorithm:
  "slugify_username nfkd v = slugify_in_words nfkd v"
proof -
  have a: "(\<lambda>c. \<not> strip_char c) =
           (\<lambda>c. re_word c \<or> isspace c \<or> c = 46 \<or> c = 64 \<or> c = 43 \<or> c = 45)"
    by (simp add: strip_char_def)
  have b: "cleanup_char = (\<lambda>c. isspace c \<or> c = 45)"
    by (auto simp: cleanup_char_def fun_eq_iff)
  show ?thesis
    by (simp add: slugify_username_def slugify_in_words_def encode_ascii_ignore_def
          match_plus_eol_matches sub_one_filter sub_plus_replace_runs a b Let_def)
qed

theorem slugify_username_algorithm_witness:
  "slugify_in_words nfkd_sample (u ''a - b  --c '' @ [10]) = u ''a-b-c'' \<and>
   slugify_in_words nfkd_sample (u ''ann@x.org'' @ [10]) = u ''ann@x.org'' @ [10]"
  using slugify_username_algorithm [of nfkd_sample "u ''a - b  --c '' @ [10]"]
    slugify_username_algorithm [of nfkd_sample "u ''ann@x.org'' @ [10]"]
    slugify_examples
  by simp

lemma sub_plus_chars:
  "x \<in> set (sub_plus C repl s) \<Longrightarrow> x \<in> set repl \<or> (x \<in> set s \<and> \<not> C x)"
proof (induction C repl s rule: sub_plus.induct)
  case (1 C repl)
  then show ?case by simp
next
  case (2 C repl c cs)
  show ?case
  proof (cases "C c")
    case True
    with 2 show ?thesis by (auto dest: set_dropWhileD)
  next
    case False
    with 2 show ?thesis by auto
  qed
qed

lemma py_strip_chars: "x \<in> set (py_strip s) \<Longrightarrow> x \<in> set s"
  by (auto simp: py_strip_def dest!: set_dropWhileD)

lemma slugify_username_ascii: "list_all (\<lambda>c. c < 128) (slugify_username nfkd v)"
proof -
  have "\<And>x. x \<in> set (slugify_username nfkd v) \<Longrightarrow> x < 128"
    by (auto simp: slugify_username_def encode_ascii_ignore_def Let_def sub_one_filter
             split: if_splits dest!: sub_plus_chars py_strip_chars)
  then show ?thesis by (simp add: list_all_iff)
qed

lemma cleaned_username_chars:
  "list_all username_char (sub_plus cleanup_char [45] (py_strip (sub_one strip_char [] s)))"
proof -
  have "\<And>x. x \<in> set (sub_plus cleanup_char [45] (py_strip (sub_one strip_char [] s)))
          \<Longrightarrow> username_char x"
    by (auto simp: sub_one_filter username_char_def strip_char_def cleanup_char_def
             dest!: sub_plus_chars py_strip_chars)
  then show ?thesis by (simp add: list_all_iff)
qed

lemma slugify_username_fixed:
  assumes "encode_ascii_ignore (nfkd r) = r"
    and "match_plus_eol username_char r \<or> r = []"
  shows "slugify_username nfkd r = r"
  using assms by (auto simp: slugify_username_def Let_def py_strip_def)

lemma decompose_ascii: "c < 128 \<Longrightarrow> decompose c = [c]"
  by simp

lemma nfkd_sample_ascii: "list_all (\<lambda>c. c < 128) s \<Longrightarrow> nfkd_sample s = s"
  by (induction s) (simp_all add: nfkd_sample_def del: decompose.simps add: decompose_ascii)

lemma slugify_jose:
  "slugify_username nfkd_sample [74, 111, 115, 233, 32, 209, 97, 110, 100, 250, 33]
     = u ''Jose-Nandu''"
  by (simp add: slugify_username_def encode_ascii_ignore_def nfkd_sample_def
        match_plus_eol_def username_char_def re_word_def strip_char_def cleanup_char_def
        isspace_def py_strip_def u_def Let_def)

text \<open>
  Claim C1. \<^verbatim>\<open>slugify_username\<close> is a function of its argument, defined on every
  text (no statement of the source raises on a text, and the model has no error value),
  and applying it to its own result gives that result again. The normalization is a
  parameter; of it the proof uses only that it leaves ASCII texts as they are, which
  holds for NFKD.
\<close>

theorem slugify_username_idempotent:
  assumes "\<And>s. list_all (\<lambda>c. c < 128) s \<Longrightarrow> nfkd s = s"
  shows "slugify_username nfkd (slugify_username nfkd v) = slugify_username nfkd v"
proof -
  let ?r = "slugify_username nfkd v"
  let ?val = "encode_ascii_ignore (nfkd v)"
  have ascii: "list_all (\<lambda>c. c < 128) ?r" by (rule slugify_username_ascii)
  then have "nfkd ?r = ?r" by (rule assms)
  moreover have "filter (\<lambda>c. c < 128) ?r = ?r"
    using ascii by (simp add: list_all_iff)
  ultimately have enc: "encode_ascii_ignore (nfkd ?r) = ?r"
    by (simp add: encode_ascii_ignore_def)
  have "match_plus_eol username_char ?r \<or> ?r = []"
  proof (cases "match_plus_eol username_char ?val")
    case True
    then have "?r = ?val" by (simp add: slugify_username_def)
    with True show ?thesis by simp
  next
    case False
    then have "?r = sub_plus cleanup_char [45] (py_strip (sub_one strip_char [] ?val))"
      by (simp add: slugify_username_def)
    then have "list_all username_char ?r"
      using cleaned_username_chars [of ?val] by simp
    then show ?thesis
      using match_plus_eol_all [of ?r username_char] by blast
  qed
  with enc show ?thesis by (rule slugify_username_fixed)
qed

theorem slugify_username_idempotent_witness:
  "slugify_username nfkd_sample
     (slugify_username nfkd_sample [74, 111, 115, 233, 32, 209, 97, 110, 100, 250, 33])
   = slugify_username nfkd_sample [74, 111, 115, 233, 32, 209, 97, 110, 100, 250, 33]
   \<and> slugify_username nfkd_sample [74, 111, 115, 233, 32, 209, 97, 110, 100, 250, 33]
     = u ''Jose-Nandu''"
  using slugify_username_idempotent [of nfkd_sample
      "[74, 111, 115, 233, 32, 209, 97, 110, 100, 250, 33]", OF nfkd_sample_ascii]
    slugify_jose
  by simp

end
